theory Spec2Isabelle
  imports Main "HOL-Library.Code_Target_Nat"
begin

text \<open>
  The upsell modal: a trigger that fetches a fragment and opens the dialog, the dialog,
  and the content component with its cards. The source holds two copies of the script.
  The model follows the first, which resolves variants and formats money through a
  template. The second has no variant handling and formats money through the locale
  interface; its formatter and its subtotal are modelled beside those of the first, under
  names that end in \<open>_second\<close>; the rest of the second copy is not modelled.
\<close>

section \<open>Strings and numbers of the script\<close>

text \<open>
  Strings are lists of code units; the model covers the code units below 256, which is
  where every character class of the source (\<open>\s\<close>, \<open>\w\<close>, \<open>\d\<close>, the separators) lives.
  Numbers that the source reads, adds and prints are whole numbers of minor currency units
  and identifiers. They are modelled as \<open>int\<close>, each standing for the double of the same
  value; that covers the safe integers (magnitude at most \<open>2 ^ 53\<close>), where every whole
  number is a double and sums are exact. Where the script leaves the whole numbers, in
  \<open>cents / 100\<close> and \<open>toFixed\<close>, the rounding of doubles is written out.
\<close>

definition is_digit :: "char \<Rightarrow> bool" where
  "is_digit c = (48 \<le> (of_char c :: nat) \<and> (of_char c :: nat) \<le> 57)"

definition is_space :: "char \<Rightarrow> bool" where
  "is_space c = ((of_char c :: nat) \<in> {9, 10, 11, 12, 13, 32, 160})"

definition is_word :: "char \<Rightarrow> bool" where
  "is_word c = (let n = (of_char c :: nat) in
     (48 \<le> n \<and> n \<le> 57) \<or> (65 \<le> n \<and> n \<le> 90) \<or> (97 \<le> n \<and> n \<le> 122) \<or> n = 95)"

definition digit_char :: "nat \<Rightarrow> char" where
  "digit_char d = char_of (48 + d)"

definition digit_val :: "char \<Rightarrow> nat" where
  "digit_val c = of_char c - 48"

text \<open>Decimal digits of a natural number, as \<open>String(n)\<close> prints them.\<close>

fun show_nat :: "nat \<Rightarrow> string" where
  "show_nat n = (if n < 10 then [digit_char n] else show_nat (n div 10) @ [digit_char (n mod 10)])"

declare show_nat.simps [simp del]

text \<open>\<open>String(i)\<close> for a whole number \<open>i\<close>, as written into a data attribute.\<close>

definition show_int :: "int \<Rightarrow> string" where
  "show_int i = (if i < 0 then CHR ''-'' # show_nat (nat (- i)) else show_nat (nat i))"

text \<open>
  \<open>parseInt(s, 10)\<close>: leading white space is skipped, one sign is read, then the longest
  run of decimal digits; no digit at all gives \<open>NaN\<close>, here \<open>None\<close>.
\<close>

definition digits_value :: "string \<Rightarrow> nat" where
  "digits_value ds = foldl (\<lambda>acc c. acc * 10 + digit_val c) 0 ds"

definition parseInt :: "string \<Rightarrow> int option" where
  "parseInt s =
     (let t = dropWhile is_space s;
          sign = (case t of c # _ \<Rightarrow> (if c = CHR ''-'' then (- 1 :: int) else 1) | [] \<Rightarrow> 1);
          u = (case t of c # r \<Rightarrow> (if c = CHR ''-'' \<or> c = CHR ''+'' then r else t) | [] \<Rightarrow> t);
          z = takeWhile is_digit u
      in if z = [] then None else Some (sign * int (digits_value z)))"

text \<open>
  The division \<open>cents / 100\<close> of doubles, for the magnitude \<open>a\<close> of a whole \<open>cents\<close>. The
  quotient is the double nearest to \<open>a / 100\<close>, ties going to the even mantissa: a mantissa
  \<open>m\<close> of 53 bits over a power of two, \<open>m / 2 ^ k\<close>. The scale \<open>k\<close> is the number of
  doublings that bring \<open>a\<close> up to \<open>100 * 2 ^ 52\<close>, which is 450359962737049600; for every
  \<open>a\<close> from 1 to \<open>2 ^ 53\<close> it lies between 6 and 59.
\<close>

function scale_from :: "nat \<Rightarrow> nat \<Rightarrow> nat" where
  "scale_from y k = (if y = 0 \<or> 450359962737049600 \<le> y then k else scale_from (2 * y) (Suc k))"
  by pat_completeness auto
termination
proof (relation "measure (\<lambda>(y, k). 450359962737049600 - y)")
  show "wf (measure (\<lambda>(y, k). 450359962737049600 - y))" by simp
next
  fix y k :: nat
  assume "\<not> (y = 0 \<or> 450359962737049600 \<le> y)"
  then have "0 < y" and "y < 450359962737049600" by simp_all
  then have "450359962737049600 - 2 * y < 450359962737049600 - y" by linarith
  then show "((2 * y, Suc k), (y, k)) \<in> measure (\<lambda>(y, k). 450359962737049600 - y)" by simp
qed

declare scale_from.simps [simp del]

definition divide_by_100 :: "nat \<Rightarrow> nat \<times> nat" where
  "divide_by_100 a =
     (let k = scale_from a 0;
          y = a * 2 ^ k;
          q = y div 100;
          r = y mod 100;
          m = (if 50 < r \<or> (r = 50 \<and> odd q) then Suc q else q)
      in (m, k))"

text \<open>
  The whole number \<open>n\<close> that \<open>toFixed\<close> prints without its point: the one nearest to the
  exact value of the double times \<open>10 ^ precision\<close>, the larger one of two equally near.
\<close>

definition fixed_digits :: "nat \<Rightarrow> nat \<Rightarrow> nat" where
  "fixed_digits a precision =
     (case divide_by_100 a of
        (m, k) \<Rightarrow> (let p = 2 ^ k in (2 * m * 10 ^ precision + p) div (2 * p)))"

text \<open>
  \<open>(cents / 100).toFixed(precision)\<close> for whole \<open>cents\<close>: the sign is split off, the
  magnitude of the double is rounded to \<open>precision\<close> decimals, the digits are padded with
  zeros to \<open>precision + 1\<close> places and the point is put in.
\<close>

definition toFixed :: "int \<Rightarrow> nat \<Rightarrow> string" where
  "toFixed cents precision =
     (let s = (if cents < 0 then ''-'' else '''');
          n = fixed_digits (nat \<bar>cents\<bar>) precision;
          m = show_nat n
      in if precision = 0 then s @ m
         else
           (let m' = (if length m \<le> precision then replicate (precision + 1 - length m) CHR ''0'' @ m else m);
                k = length m'
            in s @ take (k - precision) m' @ ''.'' @ drop (k - precision) m'))"

section \<open>Money formatting\<close>

text \<open>
  One attempt of the pattern \<open>{{\s*(\w+)\s*}}\<close> at the start of a string: the captured
  word and what follows the match. The three classes and the brace exclude one another,
  so the greedy reading is the only one.
\<close>

definition match_placeholder :: "string \<Rightarrow> (string \<times> string) option" where
  "match_placeholder s =
     (case s of
        a # b # r \<Rightarrow>
          (if a = CHR ''{'' \<and> b = CHR ''{'' then
             (let r1 = dropWhile is_space r;
                  w = takeWhile is_word r1;
                  r2 = dropWhile is_space (dropWhile is_word r1)
              in if w = [] then None
                 else (case r2 of
                         c # d # r3 \<Rightarrow> (if c = CHR ''}'' \<and> d = CHR ''}'' then Some (w, r3) else None)
                       | _ \<Rightarrow> None))
           else None)
      | _ \<Rightarrow> None)"

lemma match_placeholder_shorter:
  "match_placeholder s = Some (w, r) \<Longrightarrow> length r < length s"
proof -
  assume m: "match_placeholder s = Some (w, r)"
  have dw: "\<And>P (xs :: string). length (dropWhile P xs) \<le> length xs"
    by (simp add: length_dropWhile_le)
  from m obtain a b t where s: "s = a # b # t"
    by (auto simp: match_placeholder_def split: list.splits)
  from m s obtain c d where r2: "dropWhile is_space (dropWhile is_word (dropWhile is_space t)) = c # d # r"
    by (auto simp: match_placeholder_def Let_def split: list.splits if_splits)
  have "length (dropWhile is_space (dropWhile is_word (dropWhile is_space t))) \<le> length t"
    by (meson dw le_trans)
  with r2 s show ?thesis by simp
qed

text \<open>The global \<open>replace\<close> with a callback: left to right, resuming after each match.\<close>

function replace_placeholders :: "(string \<Rightarrow> string) \<Rightarrow> string \<Rightarrow> string" where
  "replace_placeholders f [] = []"
| "replace_placeholders f (c # cs) =
     (case match_placeholder (c # cs) of
        Some (w, r) \<Rightarrow> f w @ replace_placeholders f r
      | None \<Rightarrow> c # replace_placeholders f cs)"
  by pat_completeness auto
termination
  by (relation "measure (\<lambda>(f, s). length s)") (auto dest: match_placeholder_shorter)

text \<open>
  \<open>a.replace(/\d(?=(\d\d\d)+(?!\d))/g, digit + separator)\<close>: a digit gets the separator
  behind it when the run of digits after it is a positive multiple of three long.
\<close>

fun group_thousands :: "string \<Rightarrow> string \<Rightarrow> string" where
  "group_thousands sep [] = []"
| "group_thousands sep (c # cs) =
     (let run = length (takeWhile is_digit cs)
      in if is_digit c \<and> 0 < run \<and> run mod 3 = 0
         then c # sep @ group_thousands sep cs
         else c # group_thousands sep cs)"

text \<open>The separators and the precision a placeholder name stands for.\<close>

record money_style =
  thousandsSeparator :: string
  decimalSeparator :: string
  precision :: nat

definition placeholder_style :: "string \<Rightarrow> money_style" where
  "placeholder_style placeholder =
     (let d = \<lparr>thousandsSeparator = '','', decimalSeparator = ''.'', precision = 2\<rparr>
      in if placeholder = ''amount_no_decimals'' then d\<lparr>precision := 0\<rparr>
         else if placeholder = ''amount_with_comma_separator''
              then d\<lparr>thousandsSeparator := ''.'', decimalSeparator := '',''\<rparr>
         else if placeholder = ''amount_no_decimals_with_comma_separator''
              then d\<lparr>thousandsSeparator := ''.'', precision := 0\<rparr>
         else if placeholder = ''amount_no_decimals_with_space_separator''
              then d\<lparr>thousandsSeparator := '' '', precision := 0\<rparr>
         else if placeholder = ''amount_with_space_separator''
              then d\<lparr>thousandsSeparator := '' '', decimalSeparator := '',''\<rparr>
         else if placeholder = ''amount_with_period_and_space_separator''
              then d\<lparr>thousandsSeparator := '' '', decimalSeparator := ''.''\<rparr>
         else if placeholder = ''amount_with_apostrophe_separator''
              then d\<lparr>thousandsSeparator := [CHR 0x27], decimalSeparator := ''.''\<rparr>
         else d)"

text \<open>\<open>b.padEnd(n, '0')\<close>.\<close>

definition padEnd :: "string \<Rightarrow> nat \<Rightarrow> string" where
  "padEnd b n = b @ replicate (n - length b) CHR ''0''"

text \<open>The callback of the template replacement, for one placeholder.\<close>

definition format_placeholder :: "int \<Rightarrow> string \<Rightarrow> string" where
  "format_placeholder cents placeholder =
     (let st = placeholder_style placeholder;
          roundedNumber = toFixed cents (precision st);
          a0 = takeWhile (\<lambda>c. c \<noteq> CHR ''.'') roundedNumber;
          rest = dropWhile (\<lambda>c. c \<noteq> CHR ''.'') roundedNumber;
          b = takeWhile (\<lambda>c. c \<noteq> CHR ''.'') (drop 1 rest);
          a = (if a0 = [] then ''0'' else a0);
          a' = group_thousands (thousandsSeparator st) a
      in if precision st \<le> 0 then a'
         else a' @ decimalSeparator st @ padEnd b (precision st))"

text \<open>
  \<open>#formatMoney\<close>. The argument \<open>tmpl\<close> is the text of the \<open>template[ref="moneyFormat"]\<close>
  element of the component, \<open>None\<close> when the component has no such element.
\<close>

definition formatMoney :: "string option \<Rightarrow> int \<Rightarrow> string" where
  "formatMoney tmpl cents =
     (case tmpl of
        None \<Rightarrow> toFixed cents 2
      | Some t \<Rightarrow>
          (let template = (if t = [] then ''{{amount}}'' else t)
           in replace_placeholders (format_placeholder cents) template))"

text \<open>
  \<open>#formatMoney\<close> of the second copy of the script:
  \<open>(cents / 100).toLocaleString('en-US', {style: 'currency', currency: 'USD'})\<close>. It looks at
  no template. The format of a dollar amount for that locale, as the platform prints it: a
  minus sign for a negative amount, the dollar sign, the whole part in groups of three set
  off by commas, a point, and two decimals rounded as \<open>toFixed\<close> rounds them.
\<close>

definition formatMoney_second :: "int \<Rightarrow> string" where
  "formatMoney_second cents =
     (let digits = toFixed \<bar>cents\<bar> 2;
          whole = takeWhile (\<lambda>c. c \<noteq> CHR ''.'') digits;
          fraction = drop 1 (dropWhile (\<lambda>c. c \<noteq> CHR ''.'') digits)
      in (if cents < 0 then ''-'' else []) @ ''$'' @ group_thousands '','' whole @ ''.'' @ fraction)"

section \<open>Variants, cards and the content component\<close>

text \<open>
  An option value of a variant record, or an entry of the list of selected options read
  by index: a string, \<open>null\<close>, or \<open>undefined\<close> (a missing key, an index past the end).
  Strict equality \<open>===\<close> on these values is equality of the datatype.
\<close>

datatype optval = Undefined | Null | Str string

text \<open>
  One record of the variant list embedded in a card. \<open>sku\<close> and \<open>featured_image\<close> are
  \<open>None\<close> for \<open>null\<close>; \<open>featured_image\<close> holds the \<open>src\<close> of the image object.
\<close>

record variant =
  v_id :: int
  option1 :: optval
  option2 :: optval
  option3 :: optval
  v_price :: int
  available :: bool
  sku :: "string option"
  featured_image :: "string option"

record checkbox =
  checked :: bool
  disabled :: bool

text \<open>An element of class \<open>upsell-variant-selector\<close>: a \<open>select\<close> with its value, or not a \<open>select\<close>.\<close>

datatype selector_el = Select string | Other_element

text \<open>
  A product card: its two classes, its data attributes (\<open>None\<close> when the attribute is
  not set), the parsed content of its JSON script (\<open>None\<close> when there is no script or it is
  empty), and the elements inside it (\<open>None\<close> when the element is missing): the text of the
  price and SKU elements, the \<open>src\<close> of the image, the checkbox, the inline \<open>display\<close> of the
  sold-out badge. \<open>listening\<close> says whether the component has put its click listener on
  the card and its change listener on the checkbox.
\<close>

record card =
  listening :: bool
  is_main :: bool
  unavailable :: bool
  data_selected :: "string option"
  data_variantId :: "string option"
  data_price :: "string option"
  data_productImage :: "string option"
  variantScript :: "variant list option"
  selectors :: "selector_el list"
  price_text :: "string option"
  sku_text :: "string option"
  img_src :: "string option"
  card_checkbox :: "checkbox option"
  badge_display :: "string option"

text \<open>
  The content component: its cards in document order, the text of the subtotal element,
  the text of the money format template and whether the confirm button carries the class
  \<open>atc-added\<close> (each \<open>None\<close> when the element is missing).
\<close>

record content =
  cards :: "card list"
  subtotal_amount :: "string option"
  moneyFormat :: "string option"
  confirm_atc_added :: "bool option"

subsection \<open>Subtotal\<close>

text \<open>\<open>querySelectorAll('.upsell-product-card[data-selected="true"]')\<close>.\<close>

definition selected_cards :: "content \<Rightarrow> card list" where
  "selected_cards s = filter (\<lambda>c. data_selected c = Some ''true'') (cards s)"

text \<open>One round of the loop of \<open>#updateSubtotal\<close>: \<open>NaN\<close> is skipped.\<close>

definition add_price :: "int \<Rightarrow> card \<Rightarrow> int" where
  "add_price total' c =
     (let text = (case data_price c of None \<Rightarrow> ''0'' | Some p \<Rightarrow> (if p = [] then ''0'' else p))
      in case parseInt text of None \<Rightarrow> total' | Some price \<Rightarrow> total' + price)"

definition updateSubtotal :: "content \<Rightarrow> content" where
  "updateSubtotal s =
     (let total' = foldl add_price 0 (selected_cards s)
      in case subtotal_amount s of
           None \<Rightarrow> s
         | Some _ \<Rightarrow> s\<lparr>subtotal_amount := Some (formatMoney (moneyFormat s) total')\<rparr>)"

text \<open>
  \<open>#updateSubtotal\<close> of the second copy: the same loop, rendered by the formatter of that
  copy, whatever template the component carries.
\<close>

definition updateSubtotal_second :: "content \<Rightarrow> content" where
  "updateSubtotal_second s =
     (let total' = foldl add_price 0 (selected_cards s)
      in case subtotal_amount s of
           None \<Rightarrow> s
         | Some _ \<Rightarrow> s\<lparr>subtotal_amount := Some (formatMoney_second total')\<rparr>)"

text \<open>
  \<open>connectedCallback\<close> of the content component: it puts the change and the click
  listener on every card whose checkbox is there and enabled at that time, and renders the
  subtotal. A card that is enabled only later gets no listener. The listeners of the
  confirm button, the close button and the selectors are put on whatever the state; they
  are not recorded, and the handlers of the selectors and the confirm button are applied
  directly.
\<close>

definition attach_listeners :: "card \<Rightarrow> card" where
  "attach_listeners c =
     (case card_checkbox c of
        None \<Rightarrow> c
      | Some cb \<Rightarrow> (if disabled cb then c else c\<lparr>listening := True\<rparr>))"

definition connectedCallback :: "content \<Rightarrow> content" where
  "connectedCallback s = updateSubtotal (s\<lparr>cards := map attach_listeners (cards s)\<rparr>)"

subsection \<open>Selection\<close>

text \<open>Where a click on a card landed: on its checkbox, on a \<open>select\<close>, or anywhere else.\<close>

datatype click_target = On_checkbox | On_select | On_other

definition selected_attr :: "bool \<Rightarrow> string" where
  "selected_attr b = (if b then ''true'' else ''false'')"

text \<open>
  \<open>#handleCardClick\<close> for the card at position \<open>i\<close>, the element the listener sits on.
  A position past the last card is no card, and nothing happens.
\<close>

definition handleCardClick :: "content \<Rightarrow> nat \<Rightarrow> click_target \<Rightarrow> content" where
  "handleCardClick s i target =
     (if target = On_checkbox then s
      else if target = On_select then s
      else if length (cards s) \<le> i then s
      else
        (let card = cards s ! i
         in case card_checkbox card of
              None \<Rightarrow> s
            | Some cb \<Rightarrow>
                (if disabled cb then s
                 else
                   (let cb' = cb\<lparr>checked := \<not> checked cb\<rparr>;
                        card' = card\<lparr>card_checkbox := Some cb',
                                     data_selected := Some (selected_attr (checked cb'))\<rparr>
                    in updateSubtotal (s\<lparr>cards := (cards s)[i := card']\<rparr>)))))"

text \<open>\<open>#handleCheckboxChange\<close> for the checkbox of the card at position \<open>i\<close>.\<close>

definition handleCheckboxChange :: "content \<Rightarrow> nat \<Rightarrow> content" where
  "handleCheckboxChange s i =
     (if length (cards s) \<le> i then s
      else
        (let card = cards s ! i
         in case card_checkbox card of
              None \<Rightarrow> s
            | Some cb \<Rightarrow>
                (let card' = card\<lparr>data_selected := Some (selected_attr (checked cb))\<rparr>
                 in updateSubtotal (s\<lparr>cards := (cards s)[i := card']\<rparr>))))"

text \<open>
  The user changes the checkbox itself: the browser flips an enabled checkbox, and the
  change event runs the handler where the change listener was put on; on a card without
  the listener the flipped checkbox is all that happens.
\<close>

definition checkbox_toggled :: "content \<Rightarrow> nat \<Rightarrow> content" where
  "checkbox_toggled s i =
     (if length (cards s) \<le> i then s
      else
        (let card = cards s ! i
         in case card_checkbox card of
              None \<Rightarrow> s
            | Some cb \<Rightarrow>
                (if disabled cb then s
                 else
                   (let flipped = s\<lparr>cards := (cards s)[i := card\<lparr>card_checkbox := Some (cb\<lparr>checked := \<not> checked cb\<rparr>)\<rparr>]\<rparr>
                    in if listening card then handleCheckboxChange flipped i else flipped))))"

subsection \<open>Variant resolution\<close>

definition selectedOptions :: "card \<Rightarrow> string list" where
  "selectedOptions c =
     concat (map (\<lambda>sel. case sel of Select v \<Rightarrow> [v] | Other_element \<Rightarrow> []) (selectors c))"

text \<open>\<open>selectedOptions[k]\<close>: \<open>undefined\<close> past the end.\<close>

definition option_at :: "string list \<Rightarrow> nat \<Rightarrow> optval" where
  "option_at xs k = (if k < length xs then Str (xs ! k) else Undefined)"

text \<open>The predicate handed to \<open>variants.find\<close>.\<close>

definition variant_matches :: "string list \<Rightarrow> variant \<Rightarrow> bool" where
  "variant_matches so v =
     (option1 v = option_at so 0 \<and>
      (option2 v = option_at so 1 \<or> option2 v = Null) \<and>
      (option3 v = option_at so 2 \<or> option3 v = Null))"

text \<open>The part of \<open>#handleVariantChange\<close> that only non-main cards go through.\<close>

definition apply_availability :: "bool \<Rightarrow> card \<Rightarrow> card" where
  "apply_availability avail c =
     (if avail then
        c\<lparr>unavailable := False,
          card_checkbox := map_option (\<lambda>cb. cb\<lparr>disabled := False, checked := True\<rparr>) (card_checkbox c),
          data_selected := (case card_checkbox c of None \<Rightarrow> data_selected c | Some _ \<Rightarrow> Some ''true''),
          badge_display := map_option (\<lambda>_. ''none'') (badge_display c)\<rparr>
      else
        c\<lparr>unavailable := True,
          card_checkbox := map_option (\<lambda>cb. cb\<lparr>disabled := True, checked := False\<rparr>) (card_checkbox c),
          data_selected := (case card_checkbox c of None \<Rightarrow> data_selected c | Some _ \<Rightarrow> Some ''false''),
          badge_display := map_option (\<lambda>_. []) (badge_display c)\<rparr>)"

text \<open>What a matched variant writes into its card, given the money format of the component.\<close>

definition apply_variant :: "string option \<Rightarrow> variant \<Rightarrow> card \<Rightarrow> card" where
  "apply_variant fmt mv c =
     (let c1 = c\<lparr>data_variantId := Some (show_int (v_id mv)),
                 data_price := Some (show_int (v_price mv))\<rparr>;
          c2 = c1\<lparr>price_text := map_option (\<lambda>_. formatMoney fmt (v_price mv)) (price_text c1)\<rparr>;
          c3 = c2\<lparr>sku_text :=
                     map_option (\<lambda>_. case sku mv of
                                        None \<Rightarrow> []
                                      | Some k \<Rightarrow> (if k = [] then [] else ''SKU: '' @ k))
                       (sku_text c2)\<rparr>;
          c4 = (case (img_src c3, featured_image mv) of
                  (Some _, Some src) \<Rightarrow> c3\<lparr>img_src := Some src, data_productImage := Some src\<rparr>
                | _ \<Rightarrow> c3)
      in if is_main c4 then c4 else apply_availability (available mv) c4)"

text \<open>
  \<open>#handleVariantChange\<close> for a selector of the card at position \<open>i\<close>. The script of the
  card is taken as a well-formed list of variant records.
\<close>

definition handleVariantChange :: "content \<Rightarrow> nat \<Rightarrow> content" where
  "handleVariantChange s i =
     (if length (cards s) \<le> i then s
      else
        (let card = cards s ! i
         in case variantScript card of
              None \<Rightarrow> s
            | Some variants \<Rightarrow>
                (case find (variant_matches (selectedOptions card)) variants of
                   None \<Rightarrow> s
                 | Some matchedVariant \<Rightarrow>
                     updateSubtotal
                       (s\<lparr>cards := (cards s)[i := apply_variant (moneyFormat s) matchedVariant card]\<rparr>))))"

section \<open>The network, the dialog and the confirm action\<close>

text \<open>
  What a \<open>fetch\<close> gives back: the promise rejects, or it resolves with a response of some
  status whose body can be read (\<open>Some\<close>) or fails to be read (\<open>None\<close>). The answer of the
  network is an input of the handlers; it is only looked at when a request is sent.
\<close>

record response =
  status :: nat
  body_text :: "string option"

datatype fetch_result = Rejected | Resolved response

text \<open>\<open>response.ok\<close>: the status is in the range 200 to 299.\<close>

definition response_ok :: "response \<Rightarrow> bool" where
  "response_ok r = (200 \<le> status r \<and> status r \<le> 299)"

record cart_item =
  item_id :: string
  quantity :: nat

datatype request = Get string | Post_json string "cart_item list"

text \<open>The cart update event: whether it bubbles, and \<open>detail.data.didError\<close>.\<close>

record cart_update =
  bubbles :: bool
  didError :: bool

datatype dialog_state = Dialog_closed | Dialog_open

text \<open>
  Modelled from the spec: \<open>showDialog\<close> and \<open>closeDialog\<close> belong to the dialog base
  component, which is not part of the sources; the dialog is the two-state machine
  of open and closed, and the two operations move it to open and to closed.
\<close>

definition showDialog :: "dialog_state \<Rightarrow> dialog_state" where
  "showDialog d = Dialog_open"

definition closeDialog :: "dialog_state \<Rightarrow> dialog_state" where
  "closeDialog d = Dialog_closed"

definition handleCartUpdate :: "cart_update \<Rightarrow> dialog_state \<Rightarrow> dialog_state" where
  "handleCartUpdate event d = (if didError event then d else closeDialog d)"

text \<open>The loop of \<open>#handleConfirm\<close> that collects the items.\<close>

definition cart_items :: "content \<Rightarrow> cart_item list" where
  "cart_items s =
     concat (map (\<lambda>card. case data_variantId card of
                           None \<Rightarrow> []
                         | Some variantId \<Rightarrow>
                             (if variantId = [] then [] else [\<lparr>item_id = variantId, quantity = 1\<rparr>]))
               (selected_cards s))"

text \<open>
  What a run of \<open>#handleConfirm\<close> leaves behind: the component, the requests sent, the
  lines written to the error console, and the timers set, each with its delay in
  milliseconds and the event it dispatches at the component when it fires.
\<close>

record confirm_result =
  component :: content
  requests :: "request list"
  logged :: "string list"
  timers :: "(nat \<times> cart_update) list"

definition handleConfirm :: "content \<Rightarrow> fetch_result \<Rightarrow> confirm_result" where
  "handleConfirm s answer =
     (let items = cart_items s
      in if items = [] then \<lparr>component = s, requests = [], logged = [], timers = []\<rparr>
         else
           (let failed = \<lparr>component = s, requests = [Post_json ''/cart/add.js'' items],
                          logged = [''Error adding to cart:''], timers = []\<rparr>
            in case answer of
                 Rejected \<Rightarrow> failed
               | Resolved r \<Rightarrow>
                   (if \<not> response_ok r then failed
                    else
                      \<lparr>component = s\<lparr>confirm_atc_added := map_option (\<lambda>_. True) (confirm_atc_added s)\<rparr>,
                       requests = [Post_json ''/cart/add.js'' items],
                       logged = [],
                       timers = [(2000, \<lparr>bubbles = True, didError = False\<rparr>)]\<rparr>)))"

text \<open>
  A timer fires and dispatches its event at the content component, which sits inside the
  dialog: a bubbling event reaches the listener of the dialog.
\<close>

definition fire_timer :: "dialog_state \<Rightarrow> nat \<times> cart_update \<Rightarrow> dialog_state" where
  "fire_timer d t = (if bubbles (snd t) then handleCartUpdate (snd t) d else d)"

definition dialog_after_confirm :: "content \<Rightarrow> fetch_result \<Rightarrow> dialog_state \<Rightarrow> dialog_state" where
  "dialog_after_confirm s answer d = foldl fire_timer d (timers (handleConfirm s answer))"

subsection \<open>The reflow on close\<close>

text \<open>
  The answer of \<open>getIOSVersion\<close>, a function of the theme that is not part of the sources:
  \<open>None\<close> for no version, otherwise the two numbers.
\<close>

record ios_version =
  major :: nat
  minor :: nat

text \<open>A write to \<open>body.style.width\<close>: the measured width less one pixel, or the empty string.\<close>

datatype width_write = Width_less_one | Width_cleared

text \<open>
  \<open>#handleDialogClose\<close>: the writes to the width of the body, in the order of the animation
  frames, given the detected version and whether the document has a body.
\<close>

definition handleDialogClose :: "ios_version option \<Rightarrow> bool \<Rightarrow> width_write list" where
  "handleDialogClose iosVersion has_body =
     (case iosVersion of
        None \<Rightarrow> []
      | Some v \<Rightarrow>
          (if 17 \<le> major v \<or> (major v = 16 \<and> 4 \<le> minor v) then []
           else if has_body then [Width_less_one, Width_cleared]
           else []))"

section \<open>The trigger\<close>

text \<open>
  The trigger with its data attributes and its \<open>stay-visible\<close> attribute, and the two
  elements it looks up in the page: the dialog (\<open>None\<close> when no element of that id is an
  upsell dialog) and the markup of the content host (\<open>None\<close> when there is no host).
\<close>

record trigger =
  productHandle :: "string option"
  errorMessage :: "string option"
  stay_visible :: bool

record page =
  dialog :: "dialog_state option"
  content_html :: "string option"

record open_result =
  page_after :: page
  trigger_after :: trigger
  sent :: "request list"
  errors :: "string list"

definition default_error_message :: string where
  "default_error_message = ''Unable to load products. Please try again.''"

definition fallback_html :: "string \<Rightarrow> string" where
  \<open>fallback_html msg = ''<p style="padding: 2rem; text-align: center;">'' @ msg @ ''</p>''\<close>

definition fetchAndOpenModal :: "trigger \<Rightarrow> page \<Rightarrow> string \<Rightarrow> fetch_result \<Rightarrow> open_result" where
  "fetchAndOpenModal t p handle answer =
     (case dialog p of
        None \<Rightarrow> \<lparr>page_after = p, trigger_after = t, sent = [], errors = []\<rparr>
      | Some dialogComponent \<Rightarrow>
          (case content_html p of
             None \<Rightarrow> \<lparr>page_after = p, trigger_after = t, sent = [], errors = []\<rparr>
           | Some _ \<Rightarrow>
               (let url = ''/products/'' @ handle @ ''?section_id=upsell-modal-products'';
                    msg = (case errorMessage t of
                             None \<Rightarrow> default_error_message
                           | Some m \<Rightarrow> (if m = [] then default_error_message else m));
                    loaded = (case answer of
                                Rejected \<Rightarrow> None
                              | Resolved r \<Rightarrow> body_text r);
                    html = (case loaded of Some h \<Rightarrow> h | None \<Rightarrow> fallback_html msg);
                    errs = (case loaded of Some _ \<Rightarrow> [] | None \<Rightarrow> [''Error fetching upsell products:''])
                in \<lparr>page_after = p\<lparr>content_html := Some html,
                                      dialog := Some (showDialog dialogComponent)\<rparr>,
                    trigger_after = t\<lparr>stay_visible := True\<rparr>,
                    sent = [Get url],
                    errors = errs\<rparr>)))"

definition handleClick :: "trigger \<Rightarrow> page \<Rightarrow> fetch_result \<Rightarrow> open_result" where
  "handleClick t p answer =
     (case productHandle t of
        None \<Rightarrow> \<lparr>page_after = p, trigger_after = t, sent = [], errors = [''No product handle found'']\<rparr>
      | Some h \<Rightarrow>
          (if h = [] then \<lparr>page_after = p, trigger_after = t, sent = [], errors = [''No product handle found'']\<rparr>
           else fetchAndOpenModal t p h answer))"

text \<open>
  The versions as the specification words them, to be compared with the test of
  \<open>#handleDialogClose\<close>: major version less than 17, or major version 16 with minor
  version less than 4.
\<close>

definition spec_reflow_applies :: "ios_version \<Rightarrow> bool" where
  "spec_reflow_applies v = (major v < 17 \<or> (major v = 16 \<and> minor v < 4))"

text \<open>
  The match as the specification words it, by the first, second and third selected
  value: option1 equal to the first, option2 and option3 equal to the corresponding
  selected value or null in the variant.
\<close>

definition spec_option_match :: "optval \<Rightarrow> optval \<Rightarrow> optval \<Rightarrow> variant \<Rightarrow> bool" where
  "spec_option_match first second third v =
     (option1 v = first \<and> (option2 v = second \<or> option2 v = Null) \<and> (option3 v = third \<or> option3 v = Null))"

text \<open>
  The subtotal as the specification words it: what the subtotal element shows, if there is
  one, is the formatted sum of the prices \<open>p\<close> over the cards whose selection flag is true.
\<close>

definition subtotal_shown :: "(card \<Rightarrow> int) \<Rightarrow> content \<Rightarrow> bool" where
  "subtotal_shown p s =
     (case subtotal_amount s of
        None \<Rightarrow> True
      | Some text \<Rightarrow>
          text = formatMoney (moneyFormat s)
                   (\<Sum>c\<leftarrow>filter (\<lambda>c. data_selected c = Some ''true'') (cards s). p c))"

section \<open>Example states\<close>

text \<open>
  An add-on card as it comes with the fragment, with a variant identifier, a price
  attribute and a selection flag that agrees with its enabled checkbox, and a component
  around a list of cards.
\<close>

definition plain_card :: "string \<Rightarrow> string \<Rightarrow> bool \<Rightarrow> card" where
  "plain_card vid price sel =
     \<lparr>listening = False, is_main = False, unavailable = False, data_selected = Some (selected_attr sel),
      data_variantId = Some vid, data_price = Some price, data_productImage = None,
      variantScript = None, selectors = [], price_text = None, sku_text = None,
      img_src = None, card_checkbox = Some \<lparr>checked = sel, disabled = False\<rparr>,
      badge_display = None\<rparr>"

definition plain_content :: "card list \<Rightarrow> content" where
  "plain_content cs = \<lparr>cards = cs, subtotal_amount = Some [], moneyFormat = None, confirm_atc_added = Some False\<rparr>"

text \<open>
  A component of four cards in this order: a selected one, one whose flag says false,
  a second selected one, and one without the flag attribute.
\<close>

definition two_of_four_selected :: content where
  "two_of_four_selected =
     plain_content
       [plain_card ''101'' ''1000'' True, plain_card ''103'' ''700'' False,
        plain_card ''102'' ''1500'' True, (plain_card ''104'' ''900'' True)\<lparr>data_selected := None\<rparr>]"

text \<open>
  A component that carries the no-decimals template, with two selected cards priced
  1000 and 1500.
\<close>

definition no_decimals_content :: content where
  "no_decimals_content =
     (plain_content [plain_card ''101'' ''1000'' True, plain_card ''102'' ''1500'' True])
       \<lparr>moneyFormat := Some ''{{amount_no_decimals}}''\<rparr>"

text \<open>
  A card of a shirt with two selectors (size and colour) and four variants, the third of
  them sold out, the fourth without a colour.
\<close>

definition shirt :: "int \<Rightarrow> string \<Rightarrow> optval \<Rightarrow> int \<Rightarrow> bool \<Rightarrow> variant" where
  "shirt vid sz colour price avail =
     \<lparr>v_id = vid, option1 = Str sz, option2 = colour, option3 = Null, v_price = price,
      available = avail, sku = Some ''TS'', featured_image = None\<rparr>"

definition shirt_variants :: "variant list" where
  "shirt_variants =
     [shirt 301 ''S'' (Str ''Red'') 1000 True,
      shirt 302 ''M'' (Str ''Blue'') 1200 True,
      shirt 303 ''M'' (Str ''Red'') 1500 False,
      shirt 304 ''M'' Null 1700 True]"

definition shirt_card :: "string \<Rightarrow> string \<Rightarrow> card" where
  "shirt_card sz colour =
     \<lparr>listening = False, is_main = False, unavailable = False, data_selected = Some ''true'',
      data_variantId = Some ''301'', data_price = Some ''1000'', data_productImage = None,
      variantScript = Some shirt_variants, selectors = [Select sz, Select colour],
      price_text = Some ''10.00'', sku_text = Some ''SKU: TS'',
      img_src = None, card_checkbox = Some \<lparr>checked = True, disabled = False\<rparr>,
      badge_display = Some ''none''\<rparr>"

text \<open>
  A component as first rendered, with one card whose checkbox is enabled and unchecked
  while its selection flag says true.
\<close>

definition mismatched_content :: content where
  "mismatched_content =
     connectedCallback
       (plain_content
          [(plain_card ''101'' ''1000'' True)\<lparr>card_checkbox := Some \<lparr>checked = False, disabled = False\<rparr>\<rparr>])"

section \<open>Basic facts\<close>

lemma show_nat_small: "n < 10 \<Longrightarrow> show_nat n = [digit_char n]"
  by (simp add: show_nat.simps)

lemma show_nat_step: "10 \<le> n \<Longrightarrow> show_nat n = show_nat (n div 10) @ [digit_char (n mod 10)]"
  by (subst show_nat.simps) simp

lemma show_nat_nonempty: "show_nat n \<noteq> []"
  by (subst show_nat.simps) simp

lemma cards_updateSubtotal: "cards (updateSubtotal s) = cards s"
  by (simp add: updateSubtotal_def split: option.splits)

lemma updateSubtotal_idem: "updateSubtotal (updateSubtotal s) = updateSubtotal s"
  by (simp add: updateSubtotal_def selected_cards_def split: option.splits)

section \<open>Properties of the trigger and the dialog\<close>

text \<open>
  Claim C7. When the dialog and the content host are in the page and the fragment fetch
  fails (the request is rejected, or the body of the response cannot be read), the content
  host holds the centred paragraph with the configured error message, or with the default
  message when none or an empty one is configured, and the dialog is open afterwards.
\<close>

theorem fragment_failure_fallback:
  assumes "dialog p = Some d" and "content_html p = Some old"
    and "answer = Rejected \<or> answer = Resolved \<lparr>status = st, body_text = None\<rparr>"
  shows \<open>content_html (page_after (fetchAndOpenModal t p h answer)) =
           Some (''<p style="padding: 2rem; text-align: center;">'' @
                 (case errorMessage t of
                    None \<Rightarrow> ''Unable to load products. Please try again.''
                  | Some m \<Rightarrow> (if m = [] then ''Unable to load products. Please try again.'' else m)) @
                 ''</p>'') \<and>
         dialog (page_after (fetchAndOpenModal t p h answer)) = Some Dialog_open\<close>
  using assms
  by (auto simp: fetchAndOpenModal_def showDialog_def fallback_html_def default_error_message_def
      split: option.splits)

theorem fragment_failure_fallback_witness:
  \<open>content_html (page_after (fetchAndOpenModal
       \<lparr>productHandle = Some ''mug'', errorMessage = Some ''Sorry'', stay_visible = False\<rparr>
       \<lparr>dialog = Some Dialog_closed, content_html = Some ''old''\<rparr> ''mug'' Rejected)) =
     Some ''<p style="padding: 2rem; text-align: center;">Sorry</p>'' \<and>
   dialog (page_after (fetchAndOpenModal
       \<lparr>productHandle = Some ''mug'', errorMessage = Some ''Sorry'', stay_visible = False\<rparr>
       \<lparr>dialog = Some Dialog_closed, content_html = Some ''old''\<rparr> ''mug'' Rejected)) =
     Some Dialog_open\<close>
  using fragment_failure_fallback [of "\<lparr>dialog = Some Dialog_closed, content_html = Some ''old''\<rparr>"
      Dialog_closed "''old''" Rejected 0
      "\<lparr>productHandle = Some ''mug'', errorMessage = Some ''Sorry'', stay_visible = False\<rparr>" "''mug''"]
  by simp

text \<open>
  Claim C10. When the fragment request resolves and its body can be read, the body is put
  into the content host as it is, whatever the status of the response (404 included): no
  error is reported, the fallback message is not used, and the dialog is open afterwards.
\<close>

theorem fragment_status_ignored:
  assumes "dialog p = Some d" and "content_html p = Some old"
  shows "page_after (fetchAndOpenModal t p h (Resolved \<lparr>status = st, body_text = Some html\<rparr>)) =
           p\<lparr>content_html := Some html, dialog := Some Dialog_open\<rparr> \<and>
         errors (fetchAndOpenModal t p h (Resolved \<lparr>status = st, body_text = Some html\<rparr>)) = [] \<and>
         sent (fetchAndOpenModal t p h (Resolved \<lparr>status = st, body_text = Some html\<rparr>)) =
           [Get (''/products/'' @ h @ ''?section_id=upsell-modal-products'')]"
  using assms by (simp add: fetchAndOpenModal_def showDialog_def)

theorem fragment_status_ignored_witness:
  "page_after (fetchAndOpenModal \<lparr>productHandle = Some ''mug'', errorMessage = None, stay_visible = False\<rparr>
      \<lparr>dialog = Some Dialog_closed, content_html = Some ''old''\<rparr> ''mug''
      (Resolved \<lparr>status = 404, body_text = Some ''Not Found''\<rparr>)) =
     \<lparr>dialog = Some Dialog_open, content_html = Some ''Not Found''\<rparr>"
  using fragment_status_ignored [of "\<lparr>dialog = Some Dialog_closed, content_html = Some ''old''\<rparr>"
      Dialog_closed "''old''"
      "\<lparr>productHandle = Some ''mug'', errorMessage = None, stay_visible = False\<rparr>" "''mug''" 404 "''Not Found''"]
  by simp

text \<open>
  Claim C8, as the specification words it, fails: version 16.5 has a major version less
  than 17, so the wording counts it in, and the handler leaves the body alone there.
\<close>

theorem reflow_claim_counterexample:
  "spec_reflow_applies \<lparr>major = 16, minor = 5\<rparr> \<and>
   handleDialogClose (Some \<lparr>major = 16, minor = 5\<rparr>) True = []"
  by (simp add: spec_reflow_applies_def handleDialogClose_def)

text \<open>
  Claim C8, amended. The width of the body is written (shrunk by one pixel in one frame,
  cleared in the next) exactly when the document has a body and a version is detected
  whose major version is less than 16, or is 16 with a minor version less than 4; for
  every other version, and when no version is detected, nothing is written.
\<close>

theorem reflow_runs_exactly:
  "handleDialogClose iosVersion has_body =
     (if has_body \<and> (case iosVersion of
                        None \<Rightarrow> False
                      | Some v \<Rightarrow> major v < 16 \<or> (major v = 16 \<and> minor v < 4))
      then [Width_less_one, Width_cleared] else [])"
  by (auto simp: handleDialogClose_def split: option.splits)

theorem reflow_runs_exactly_witness:
  "handleDialogClose (Some \<lparr>major = 16, minor = 3\<rparr>) True = [Width_less_one, Width_cleared] \<and>
   handleDialogClose (Some \<lparr>major = 15, minor = 7\<rparr>) True = [Width_less_one, Width_cleared] \<and>
   handleDialogClose (Some \<lparr>major = 16, minor = 4\<rparr>) True = [] \<and>
   handleDialogClose (Some \<lparr>major = 17, minor = 0\<rparr>) True = [] \<and>
   handleDialogClose None True = []"
  using reflow_runs_exactly [of "Some \<lparr>major = 16, minor = 3\<rparr>" True]
    reflow_runs_exactly [of "Some \<lparr>major = 15, minor = 7\<rparr>" True]
    reflow_runs_exactly [of "Some \<lparr>major = 16, minor = 4\<rparr>" True]
    reflow_runs_exactly [of "Some \<lparr>major = 17, minor = 0\<rparr>" True]
    reflow_runs_exactly [of None True]
  by simp

section \<open>Properties of the confirm action\<close>

lemma collect_items_filter_map:
  "concat (map (\<lambda>card. case data_variantId card of
                           None \<Rightarrow> []
                         | Some variantId \<Rightarrow>
                             (if variantId = [] then [] else [\<lparr>item_id = variantId, quantity = 1\<rparr>])) cs) =
     map (\<lambda>c. \<lparr>item_id = (case data_variantId c of Some v \<Rightarrow> v | None \<Rightarrow> []), quantity = 1\<rparr>)
       (filter (\<lambda>c. data_variantId c \<noteq> None \<and> data_variantId c \<noteq> Some []) cs)"
  by (induction cs) (auto split: option.splits)

text \<open>
  Claim C3. Every entry of the payload built at confirm time has a non-empty variant
  identifier and quantity one: the payload is the list of the selected cards that have a
  non-empty variant identifier, in card order. A request, if one is sent, carries that
  payload; when the payload is empty, and so when no card is selected, the handler
  returns at once and sends nothing.
\<close>

theorem payload_ids_nonempty:
  "(\<forall>it \<in> set (cart_items s). item_id it \<noteq> [] \<and> quantity it = 1) \<and>
   cart_items s =
     map (\<lambda>c. \<lparr>item_id = (case data_variantId c of Some v \<Rightarrow> v | None \<Rightarrow> []), quantity = 1\<rparr>)
       (filter (\<lambda>c. data_variantId c \<noteq> None \<and> data_variantId c \<noteq> Some []) (selected_cards s)) \<and>
   (requests (handleConfirm s answer) = [] \<or>
    requests (handleConfirm s answer) = [Post_json ''/cart/add.js'' (cart_items s)]) \<and>
   (cart_items s = [] \<longrightarrow> handleConfirm s answer = \<lparr>component = s, requests = [], logged = [], timers = []\<rparr>) \<and>
   (selected_cards s = [] \<longrightarrow> requests (handleConfirm s answer) = [])"
proof -
  have ids: "\<forall>it \<in> set (cart_items s). item_id it \<noteq> [] \<and> quantity it = 1"
    by (auto simp: cart_items_def split: option.splits if_splits)
  have shape: "cart_items s =
     map (\<lambda>c. \<lparr>item_id = (case data_variantId c of Some v \<Rightarrow> v | None \<Rightarrow> []), quantity = 1\<rparr>)
       (filter (\<lambda>c. data_variantId c \<noteq> None \<and> data_variantId c \<noteq> Some []) (selected_cards s))"
    unfolding cart_items_def by (rule collect_items_filter_map)
  have req: "requests (handleConfirm s answer) = [] \<or>
    requests (handleConfirm s answer) = [Post_json ''/cart/add.js'' (cart_items s)]"
    by (simp add: handleConfirm_def Let_def split: fetch_result.splits)
  have empty: "cart_items s = [] \<longrightarrow>
      handleConfirm s answer = \<lparr>component = s, requests = [], logged = [], timers = []\<rparr>"
    by (simp add: handleConfirm_def)
  have none: "selected_cards s = [] \<longrightarrow> requests (handleConfirm s answer) = []"
    by (simp add: handleConfirm_def cart_items_def)
  from ids shape req empty none show ?thesis by blast
qed

theorem payload_ids_nonempty_witness:
  "map item_id (cart_items (plain_content
      [plain_card ''101'' ''1000'' True, plain_card [] ''1500'' True, plain_card ''103'' ''700'' False])) = [''101''] \<and>
   requests (handleConfirm (plain_content [plain_card [] ''1500'' True, plain_card ''103'' ''700'' False])
      (Resolved \<lparr>status = 200, body_text = Some []\<rparr>)) = [] \<and>
   requests (handleConfirm (plain_content []) (Resolved \<lparr>status = 200, body_text = Some []\<rparr>)) = []"
  using payload_ids_nonempty [of "plain_content
      [plain_card ''101'' ''1000'' True, plain_card [] ''1500'' True, plain_card ''103'' ''700'' False]" Rejected]
    payload_ids_nonempty [of "plain_content [plain_card [] ''1500'' True, plain_card ''103'' ''700'' False]"
      "Resolved \<lparr>status = 200, body_text = Some []\<rparr>"]
    payload_ids_nonempty [of "plain_content []" "Resolved \<lparr>status = 200, body_text = Some []\<rparr>"]
  by (simp add: selected_cards_def plain_content_def plain_card_def selected_attr_def)

text \<open>
  Claim C2. When exactly two of the cards of the component carry the selection flag true,
  whatever other cards stand before, between and after them, and each of the two has a
  non-empty variant identifier, confirm posts exactly the two entries of these cards with
  quantity one to the cart endpoint, in card order.
  The timer of 2000 ms that dispatches the bubbling cart update without error is set if
  and only if the request resolves with a status from 200 to 299, and then the open dialog
  ends closed; otherwise no timer is set, the error is logged, the component is left as it
  was and the dialog stays open.
\<close>

theorem confirm_two_cards:
  assumes "filter (\<lambda>c. data_selected c = Some ''true'') (cards s) = [c1, c2]"
    and "data_variantId c1 = Some v1" and "v1 \<noteq> []"
    and "data_variantId c2 = Some v2" and "v2 \<noteq> []"
  shows "requests (handleConfirm s answer) =
           [Post_json ''/cart/add.js'' [\<lparr>item_id = v1, quantity = 1\<rparr>, \<lparr>item_id = v2, quantity = 1\<rparr>]] \<and>
         ((timers (handleConfirm s answer) = [(2000, \<lparr>bubbles = True, didError = False\<rparr>)]) =
            (\<exists>r. answer = Resolved r \<and> 200 \<le> status r \<and> status r \<le> 299)) \<and>
         (dialog_after_confirm s answer Dialog_open = Dialog_closed) =
            (\<exists>r. answer = Resolved r \<and> 200 \<le> status r \<and> status r \<le> 299) \<and>
         (if \<exists>r. answer = Resolved r \<and> 200 \<le> status r \<and> status r \<le> 299
          then logged (handleConfirm s answer) = []
          else timers (handleConfirm s answer) = [] \<and>
               logged (handleConfirm s answer) = [''Error adding to cart:''] \<and>
               component (handleConfirm s answer) = s \<and>
               dialog_after_confirm s answer Dialog_open = Dialog_open)"
proof -
  have items: "cart_items s = [\<lparr>item_id = v1, quantity = 1\<rparr>, \<lparr>item_id = v2, quantity = 1\<rparr>]"
    using assms by (simp add: cart_items_def selected_cards_def)
  show ?thesis
  proof (cases answer)
    case Rejected
    with items show ?thesis
      by (simp add: handleConfirm_def dialog_after_confirm_def)
  next
    case (Resolved r)
    with items show ?thesis
      by (simp add: handleConfirm_def dialog_after_confirm_def response_ok_def fire_timer_def
          handleCartUpdate_def closeDialog_def)
  qed
qed

theorem confirm_two_cards_witness:
  "requests (handleConfirm two_of_four_selected (Resolved \<lparr>status = 200, body_text = Some []\<rparr>)) =
     [Post_json ''/cart/add.js'' [\<lparr>item_id = ''101'', quantity = 1\<rparr>, \<lparr>item_id = ''102'', quantity = 1\<rparr>]] \<and>
   timers (handleConfirm two_of_four_selected (Resolved \<lparr>status = 200, body_text = Some []\<rparr>)) =
     [(2000, \<lparr>bubbles = True, didError = False\<rparr>)] \<and>
   dialog_after_confirm two_of_four_selected (Resolved \<lparr>status = 200, body_text = Some []\<rparr>) Dialog_open =
     Dialog_closed \<and>
   requests (handleConfirm two_of_four_selected (Resolved \<lparr>status = 422, body_text = Some []\<rparr>)) =
     [Post_json ''/cart/add.js'' [\<lparr>item_id = ''101'', quantity = 1\<rparr>, \<lparr>item_id = ''102'', quantity = 1\<rparr>]] \<and>
   timers (handleConfirm two_of_four_selected (Resolved \<lparr>status = 422, body_text = Some []\<rparr>)) = [] \<and>
   dialog_after_confirm two_of_four_selected (Resolved \<lparr>status = 422, body_text = Some []\<rparr>) Dialog_open =
     Dialog_open"
proof -
  have cs: "cards two_of_four_selected =
      [plain_card ''101'' ''1000'' True, plain_card ''103'' ''700'' False,
       plain_card ''102'' ''1500'' True, (plain_card ''104'' ''900'' True)\<lparr>data_selected := None\<rparr>]"
    by (simp add: two_of_four_selected_def plain_content_def)
  have sel: "filter (\<lambda>c. data_selected c = Some ''true'') (cards two_of_four_selected) =
      [plain_card ''101'' ''1000'' True, plain_card ''102'' ''1500'' True]"
    unfolding cs by (simp add: plain_card_def selected_attr_def)
  have ids: "data_variantId (plain_card ''101'' ''1000'' True) = Some ''101''"
    "data_variantId (plain_card ''102'' ''1500'' True) = Some ''102''"
    by (simp_all add: plain_card_def)
  show ?thesis
    using confirm_two_cards [OF sel ids(1) _ ids(2), of "Resolved \<lparr>status = 200, body_text = Some []\<rparr>"]
      confirm_two_cards [OF sel ids(1) _ ids(2), of "Resolved \<lparr>status = 422, body_text = Some []\<rparr>"]
    by simp
qed

section \<open>Properties of the money formatter\<close>

lemma show_nat_two:
  assumes "100 \<le> n"
  shows "show_nat n = show_nat (n div 100) @ [digit_char (n div 10 mod 10), digit_char (n mod 10)]"
proof -
  have "10 \<le> n div 10" using assms by simp
  then have "show_nat (n div 10) = show_nat (n div 10 div 10) @ [digit_char (n div 10 mod 10)]"
    by (rule show_nat_step)
  moreover have "n div 10 div 10 = n div 100" by (simp add: div_mult2_eq)
  moreover have "show_nat n = show_nat (n div 10) @ [digit_char (n mod 10)]"
    using assms by (simp add: show_nat_step)
  ultimately show ?thesis by simp
qed

lemma toFixed_two_decimals:
  "toFixed cents 2 =
     (if cents < 0 then ''-'' else []) @ show_nat (fixed_digits (nat \<bar>cents\<bar>) 2 div 100) @ ''.'' @
     [digit_char (fixed_digits (nat \<bar>cents\<bar>) 2 div 10 mod 10),
      digit_char (fixed_digits (nat \<bar>cents\<bar>) 2 mod 10)]"
proof -
  define x where "x = fixed_digits (nat \<bar>cents\<bar>) 2"
  have tf: "toFixed cents 2 = (if cents < 0 then ''-'' else []) @
      (let m = show_nat x;
           m' = (if length m \<le> 2 then replicate (3 - length m) CHR ''0'' @ m else m)
       in take (length m' - 2) m' @ ''.'' @ drop (length m' - 2) m')"
    unfolding toFixed_def Let_def x_def[symmetric] by simp
  have zero: "digit_char 0 = CHR ''0''" by code_simp
  consider "x < 10" | "10 \<le> x" "x < 100" | "100 \<le> x" by linarith
  then have "(let m = show_nat x;
           m' = (if length m \<le> 2 then replicate (3 - length m) CHR ''0'' @ m else m)
       in take (length m' - 2) m' @ ''.'' @ drop (length m' - 2) m') =
     show_nat (x div 100) @ ''.'' @ [digit_char (x div 10 mod 10), digit_char (x mod 10)]"
  proof cases
    case 1
    then show ?thesis
      by (simp add: show_nat_small zero numeral_3_eq_3)
  next
    case 2
    then have "show_nat x = [digit_char (x div 10), digit_char (x mod 10)]"
      by (simp add: show_nat_step show_nat_small)
    with 2 show ?thesis
      by (simp add: show_nat_small zero)
  next
    case 3
    then show ?thesis
      using show_nat_nonempty [of "x div 100"]
      by (simp add: show_nat_two Let_def)
  qed
  with tf show ?thesis by (simp add: x_def)
qed

lemma scale_from_ge: "k \<le> scale_from y k"
proof (induction y k rule: scale_from.induct)
  case (1 y k)
  show ?case
  proof (cases "y = 0 \<or> 450359962737049600 \<le> y")
    case True
    then show ?thesis by (subst scale_from.simps) simp
  next
    case False
    with 1 have "Suc k \<le> scale_from (2 * y) (Suc k)" by simp
    moreover from False have "scale_from y k = scale_from (2 * y) (Suc k)"
      by (subst scale_from.simps) simp
    ultimately show ?thesis by simp
  qed
qed

lemma scale_from_at_least_7:
  assumes "0 < y" and "k \<le> 6" and "y * 2 ^ (6 - k) < 450359962737049600"
  shows "7 \<le> scale_from y k"
  using assms
proof (induction y k rule: scale_from.induct)
  case (1 y k)
  have "y \<le> y * 2 ^ (6 - k)" by simp
  also have "\<dots> < 450359962737049600" by (fact "1.prems"(3))
  finally have "y < 450359962737049600" .
  with "1.prems" have stop: "\<not> (y = 0 \<or> 450359962737049600 \<le> y)" by simp
  then have eq: "scale_from y k = scale_from (2 * y) (Suc k)"
    by (subst scale_from.simps) simp
  show ?case
  proof (cases "k = 6")
    case True
    then show ?thesis using scale_from_ge [of 7 "2 * y"] eq by simp
  next
    case False
    with "1.prems" have k: "Suc k \<le> 6" by simp
    then have "6 - k = Suc (6 - Suc k)" by simp
    then have e: "2 * y * 2 ^ (6 - Suc k) = y * 2 ^ (6 - k)" by simp
    have "2 * y * 2 ^ (6 - Suc k) < 450359962737049600"
      unfolding e by (fact "1.prems"(3))
    with "1.IH" [OF stop] "1.prems" k have "7 \<le> scale_from (2 * y) (Suc k)" by simp
    with eq show ?thesis by simp
  qed
qed

lemma round_back:
  fixes a P q r m :: nat
  assumes "a * P = 100 * q + r" and "r < 100" and "128 \<le> P"
    and "m = (if 50 < r \<or> (r = 50 \<and> odd q) then Suc q else q)"
  shows "(2 * m * 100 + P) div (2 * P) = a"
proof (rule div_nat_eqI)
  show "2 * P * a \<le> 2 * m * 100 + P"
    using assms by (auto simp: algebra_simps split: if_splits)
  show "2 * m * 100 + P < 2 * P * Suc a"
    using assms by (auto simp: algebra_simps split: if_splits)
qed

lemma fixed_digits_exact:
  assumes "a < 100 * 2 ^ 46"
  shows "fixed_digits a 2 = a"
proof (cases "a = 0")
  case True
  then show ?thesis
    by (simp add: fixed_digits_def divide_by_100_def scale_from.simps)
next
  case False
  define k where "k = scale_from a 0"
  from assms have "a * 2 ^ (6 - 0) < 450359962737049600" by simp
  with False have "7 \<le> k" unfolding k_def by (intro scale_from_at_least_7) simp_all
  then have "(2::nat) ^ 7 \<le> 2 ^ k" by (intro power_increasing) simp_all
  then have P: "128 \<le> (2::nat) ^ k" by simp
  define q where "q = (a * 2 ^ k) div 100"
  define r where "r = (a * 2 ^ k) mod 100"
  define m where "m = (if 50 < r \<or> (r = 50 \<and> odd q) then Suc q else q)"
  have split: "a * 2 ^ k = 100 * q + r" by (simp add: q_def r_def)
  have r: "r < 100" by (simp add: r_def)
  have "(2 * m * 100 + 2 ^ k) div (2 * 2 ^ k) = a"
    using split r P m_def by (rule round_back)
  moreover have "fixed_digits a 2 = (2 * m * 10 ^ 2 + 2 ^ k) div 2 ^ Suc k"
    by (simp add: fixed_digits_def divide_by_100_def Let_def k_def q_def r_def m_def)
  ultimately show ?thesis by simp
qed

text \<open>
  Claim C5, as the specification words it, fails on the second copy of the script, which
  the claim names too: its formatter reads no template and prints 2500 as a dollar
  amount. In a component that carries the no-decimals template and two selected cards
  priced 1000 and 1500, the first copy renders the subtotal 25 and the second $25.00.
\<close>

theorem formatMoney_second_counterexample:
  "formatMoney_second 2500 = ''$25.00'' \<and>
   subtotal_amount (updateSubtotal no_decimals_content) = Some ''25'' \<and>
   subtotal_amount (updateSubtotal_second no_decimals_content) = Some ''$25.00''"
  by code_simp

text \<open>
  Claim C5, amended. The template-driven formatter of the first copy maps 2500 to 25.00
  with the default template (an empty template element, or the amount placeholder), to
  25 with the no-decimals placeholder and to 25,00 with the comma-separator placeholder.
  Without a template element its result is the fixed two-decimal form of \<open>toFixed\<close>: the
  sign, the whole part, a point and two digits of the rounded hundredths, which are the
  cents themselves for every magnitude below \<open>100 * 2 ^ 46\<close>. The formatter of the second
  copy reads no template and gives $25.00 for 2500.
\<close>

theorem formatMoney_examples:
  "formatMoney (Some []) 2500 = ''25.00'' \<and>
   formatMoney (Some ''{{amount}}'') 2500 = ''25.00'' \<and>
   formatMoney (Some ''{{amount_no_decimals}}'') 2500 = ''25'' \<and>
   formatMoney (Some ''{{amount_with_comma_separator}}'') 2500 = ''25,00'' \<and>
   formatMoney None 2500 = ''25.00'' \<and>
   formatMoney None cents =
     (if cents < 0 then ''-'' else []) @ show_nat (fixed_digits (nat \<bar>cents\<bar>) 2 div 100) @ ''.'' @
     [digit_char (fixed_digits (nat \<bar>cents\<bar>) 2 div 10 mod 10),
      digit_char (fixed_digits (nat \<bar>cents\<bar>) 2 mod 10)] \<and>
   (\<bar>cents\<bar> < 100 * 2 ^ 46 \<longrightarrow>
      formatMoney None cents =
        (if cents < 0 then ''-'' else []) @ show_nat (nat \<bar>cents\<bar> div 100) @ ''.'' @
        [digit_char (nat \<bar>cents\<bar> div 10 mod 10), digit_char (nat \<bar>cents\<bar> mod 10)]) \<and>
   formatMoney_second 2500 = ''$25.00''"
proof -
  have a: "formatMoney (Some []) 2500 = ''25.00''" by code_simp
  have b: "formatMoney (Some ''{{amount}}'') 2500 = ''25.00''" by code_simp
  have c: "formatMoney (Some ''{{amount_no_decimals}}'') 2500 = ''25''" by code_simp
  have d: "formatMoney (Some ''{{amount_with_comma_separator}}'') 2500 = ''25,00''" by code_simp
  have e: "formatMoney None 2500 = ''25.00''" by code_simp
  have f: "formatMoney None cents = toFixed cents 2" by (simp add: formatMoney_def)
  have g: "formatMoney None cents =
     (if cents < 0 then ''-'' else []) @ show_nat (fixed_digits (nat \<bar>cents\<bar>) 2 div 100) @ ''.'' @
     [digit_char (fixed_digits (nat \<bar>cents\<bar>) 2 div 10 mod 10),
      digit_char (fixed_digits (nat \<bar>cents\<bar>) 2 mod 10)]"
    unfolding f by (rule toFixed_two_decimals)
  have h: "\<bar>cents\<bar> < 100 * 2 ^ 46 \<longrightarrow>
      formatMoney None cents =
        (if cents < 0 then ''-'' else []) @ show_nat (nat \<bar>cents\<bar> div 100) @ ''.'' @
        [digit_char (nat \<bar>cents\<bar> div 10 mod 10), digit_char (nat \<bar>cents\<bar> mod 10)]"
  proof
    assume "\<bar>cents\<bar> < 100 * 2 ^ 46"
    then have "nat \<bar>cents\<bar> < 100 * 2 ^ 46" by simp
    then have "fixed_digits (nat \<bar>cents\<bar>) 2 = nat \<bar>cents\<bar>" by (rule fixed_digits_exact)
    with g show "formatMoney None cents =
        (if cents < 0 then ''-'' else []) @ show_nat (nat \<bar>cents\<bar> div 100) @ ''.'' @
        [digit_char (nat \<bar>cents\<bar> div 10 mod 10), digit_char (nat \<bar>cents\<bar> mod 10)]"
      by simp
  qed
  have i: "formatMoney_second 2500 = ''$25.00''" by code_simp
  show ?thesis
    by (intro conjI) (rule a b c d e g h i)+
qed

theorem formatMoney_examples_witness:
  "formatMoney None (- 1999) = ''-19.99'' \<and> formatMoney None 5 = ''0.05''"
proof -
  have digits: "show_nat 19 = ''19''" "show_nat 0 = ''0''"
    "digit_char 9 = CHR ''9''" "digit_char 0 = CHR ''0''" "digit_char 5 = CHR ''5''"
    by code_simp+
  note below =
    formatMoney_examples [of "- 1999", THEN conjunct2, THEN conjunct2, THEN conjunct2,
      THEN conjunct2, THEN conjunct2, THEN conjunct2, THEN conjunct1]
  note small =
    formatMoney_examples [of 5, THEN conjunct2, THEN conjunct2, THEN conjunct2,
      THEN conjunct2, THEN conjunct2, THEN conjunct2, THEN conjunct1]
  from below have "formatMoney None (- 1999) = ''-19.99''" by (simp add: digits)
  moreover from small have "formatMoney None 5 = ''0.05''" by (simp add: digits)
  ultimately show ?thesis by simp
qed

section \<open>Properties of variant resolution\<close>

lemma find_first_at:
  "k < length xs \<Longrightarrow> P (xs ! k) \<Longrightarrow> \<forall>x \<in> set (take k xs). \<not> P x \<Longrightarrow> find P xs = Some (xs ! k)"
proof (induction xs arbitrary: k)
  case Nil
  then show ?case by simp
next
  case (Cons x xs)
  show ?case
  proof (cases k)
    case 0
    with Cons.prems show ?thesis by simp
  next
    case (Suc m)
    with Cons.prems have "\<not> P x" and "m < length xs" and "P (xs ! m)"
      and "\<forall>y \<in> set (take m xs). \<not> P y"
      by simp_all
    with Cons.IH [of m] Suc show ?thesis by simp
  qed
qed

lemma find_none: "\<forall>x \<in> set xs. \<not> P x \<Longrightarrow> find P xs = None"
  by (induction xs) simp_all

lemma variant_matches_spec:
  "variant_matches so v = spec_option_match (option_at so 0) (option_at so 1) (option_at so 2) v"
  by (simp add: variant_matches_def spec_option_match_def)

text \<open>
  Claim C1. For a card with an embedded variant list, with the selector values read in
  positional order: when the variant at position \<open>k\<close> matches (option1 equal to the first
  selected value, option2 and option3 equal to the corresponding selected value or null)
  and no variant before it does, the card takes that variant, so its variant identifier
  and price attributes are those of that variant; when no variant of the list matches,
  the whole component, the card included, is left as it was.
\<close>

theorem variant_resolution:
  assumes "i < length (cards s)" and "variantScript (cards s ! i) = Some variants"
    and "so = selectedOptions (cards s ! i)"
  shows "(k < length variants \<and>
          spec_option_match (option_at so 0) (option_at so 1) (option_at so 2) (variants ! k) \<and>
          (\<forall>v \<in> set (take k variants).
             \<not> spec_option_match (option_at so 0) (option_at so 1) (option_at so 2) v) \<longrightarrow>
            cards (handleVariantChange s i) ! i = apply_variant (moneyFormat s) (variants ! k) (cards s ! i) \<and>
            data_variantId (cards (handleVariantChange s i) ! i) = Some (show_int (v_id (variants ! k))) \<and>
            data_price (cards (handleVariantChange s i) ! i) = Some (show_int (v_price (variants ! k)))) \<and>
         ((\<forall>v \<in> set variants.
             \<not> spec_option_match (option_at so 0) (option_at so 1) (option_at so 2) v) \<longrightarrow>
            handleVariantChange s i = s)"
proof (intro conjI impI)
  assume none: "\<forall>v \<in> set variants.
      \<not> spec_option_match (option_at so 0) (option_at so 1) (option_at so 2) v"
  then have "find (variant_matches so) variants = None"
    by (intro find_none) (simp add: variant_matches_spec)
  with assms show "handleVariantChange s i = s"
    by (simp add: handleVariantChange_def)
next
  assume first: "k < length variants \<and>
      spec_option_match (option_at so 0) (option_at so 1) (option_at so 2) (variants ! k) \<and>
      (\<forall>v \<in> set (take k variants).
         \<not> spec_option_match (option_at so 0) (option_at so 1) (option_at so 2) v)"
  then have "find (variant_matches so) variants = Some (variants ! k)"
    by (intro find_first_at) (simp_all add: variant_matches_spec)
  with assms have eq: "handleVariantChange s i =
      updateSubtotal (s\<lparr>cards := (cards s)[i := apply_variant (moneyFormat s) (variants ! k) (cards s ! i)]\<rparr>)"
    by (simp add: handleVariantChange_def)
  with assms show c: "cards (handleVariantChange s i) ! i =
      apply_variant (moneyFormat s) (variants ! k) (cards s ! i)"
    by (simp add: cards_updateSubtotal)
  show "data_variantId (cards (handleVariantChange s i) ! i) = Some (show_int (v_id (variants ! k)))"
    unfolding c by (simp add: apply_variant_def apply_availability_def Let_def split: option.splits)
  show "data_price (cards (handleVariantChange s i) ! i) = Some (show_int (v_price (variants ! k)))"
    unfolding c by (simp add: apply_variant_def apply_availability_def Let_def split: option.splits)
qed

theorem variant_resolution_witness:
  "data_variantId (cards (handleVariantChange (plain_content [shirt_card ''M'' ''Red'']) 0) ! 0) =
     Some ''303'' \<and>
   data_price (cards (handleVariantChange (plain_content [shirt_card ''M'' ''Red'']) 0) ! 0) =
     Some ''1500'' \<and>
   handleVariantChange (plain_content [shirt_card ''L'' ''Red'']) 0 = plain_content [shirt_card ''L'' ''Red'']"
proof -
  have digits: "show_int 303 = ''303''" "show_int 1500 = ''1500''"
    by code_simp+
  show ?thesis
    using variant_resolution [of 0 "plain_content [shirt_card ''M'' ''Red'']" shirt_variants "[''M'', ''Red'']" 2]
      variant_resolution [of 0 "plain_content [shirt_card ''L'' ''Red'']" shirt_variants "[''L'', ''Red'']" 0]
    by (simp add: plain_content_def shirt_card_def shirt_variants_def shirt_def selectedOptions_def
        option_at_def spec_option_match_def apply_variant_def apply_availability_def Let_def digits)
qed


lemma selected_cards_replace_unselected:
  assumes "i < length cs" and "data_selected c' \<noteq> Some ''true''"
  shows "filter (\<lambda>c. data_selected c = Some ''true'') (cs[i := c']) =
         filter (\<lambda>c. data_selected c = Some ''true'') (take i cs @ drop (Suc i) cs)"
proof -
  have "cs[i := c'] = take i cs @ c' # drop (Suc i) cs"
    using assms(1) by (rule upd_conv_take_nth_drop)
  with assms(2) show ?thesis by simp
qed

text \<open>
  Claim C6. On a card that is not the main card and has a checkbox and a sold-out badge,
  a variant change that resolves to an available variant leaves the checkbox enabled and
  checked, the selection flag true, the unavailable class off and the badge hidden; one
  that resolves to an unavailable variant leaves the checkbox disabled and unchecked, the
  selection flag false, the unavailable class on and the inline hiding of the badge
  removed, and the subtotal rendered afterwards is the total over the other cards only.
\<close>

theorem availability_toggle:
  assumes "i < length (cards s)" and "variantScript (cards s ! i) = Some variants"
    and "find (variant_matches (selectedOptions (cards s ! i))) variants = Some mv"
    and "\<not> is_main (cards s ! i)"
    and "card_checkbox (cards s ! i) = Some cb" and "badge_display (cards s ! i) = Some b"
  shows "(if available mv then
            card_checkbox (cards (handleVariantChange s i) ! i) = Some \<lparr>checked = True, disabled = False\<rparr> \<and>
            data_selected (cards (handleVariantChange s i) ! i) = Some ''true'' \<and>
            \<not> unavailable (cards (handleVariantChange s i) ! i) \<and>
            badge_display (cards (handleVariantChange s i) ! i) = Some ''none''
          else
            card_checkbox (cards (handleVariantChange s i) ! i) = Some \<lparr>checked = False, disabled = True\<rparr> \<and>
            data_selected (cards (handleVariantChange s i) ! i) = Some ''false'' \<and>
            unavailable (cards (handleVariantChange s i) ! i) \<and>
            badge_display (cards (handleVariantChange s i) ! i) = Some [] \<and>
            subtotal_amount (handleVariantChange s i) =
              map_option (\<lambda>_. formatMoney (moneyFormat s)
                  (foldl add_price 0
                     (filter (\<lambda>c. data_selected c = Some ''true'') (take i (cards s) @ drop (Suc i) (cards s)))))
                (subtotal_amount s))"
proof -
  define c' where "c' = apply_variant (moneyFormat s) mv (cards s ! i)"
  have eq: "handleVariantChange s i = updateSubtotal (s\<lparr>cards := (cards s)[i := c']\<rparr>)"
    using assms by (simp add: handleVariantChange_def c'_def)
  have at: "cards (handleVariantChange s i) ! i = c'"
    using assms(1) by (simp add: eq cards_updateSubtotal)
  have cb: "card_checkbox c' =
      Some (if available mv then \<lparr>checked = True, disabled = False\<rparr> else \<lparr>checked = False, disabled = True\<rparr>)"
    using assms by (simp add: c'_def apply_variant_def apply_availability_def Let_def split: option.splits)
  have sel: "data_selected c' = Some (if available mv then ''true'' else ''false'')"
    using assms by (simp add: c'_def apply_variant_def apply_availability_def Let_def split: option.splits)
  have un: "unavailable c' = (\<not> available mv)"
    using assms by (simp add: c'_def apply_variant_def apply_availability_def Let_def split: option.splits)
  have badge: "badge_display c' = Some (if available mv then ''none'' else [])"
    using assms by (simp add: c'_def apply_variant_def apply_availability_def Let_def split: option.splits)
  show ?thesis
  proof (cases "available mv")
    case True
    with at cb sel un badge show ?thesis by simp
  next
    case False
    with sel have "data_selected c' \<noteq> Some ''true''" by simp
    with assms(1) have "selected_cards (s\<lparr>cards := (cards s)[i := c']\<rparr>) =
        filter (\<lambda>c. data_selected c = Some ''true'') (take i (cards s) @ drop (Suc i) (cards s))"
      by (simp add: selected_cards_def selected_cards_replace_unselected)
    then have "subtotal_amount (handleVariantChange s i) =
        map_option (\<lambda>_. formatMoney (moneyFormat s)
            (foldl add_price 0
               (filter (\<lambda>c. data_selected c = Some ''true'') (take i (cards s) @ drop (Suc i) (cards s)))))
          (subtotal_amount s)"
      by (simp add: eq updateSubtotal_def split: option.splits)
    with False at cb sel un badge show ?thesis by simp
  qed
qed

theorem availability_toggle_witness:
  "card_checkbox (cards (handleVariantChange
       (plain_content [plain_card ''101'' ''1000'' True, shirt_card ''M'' ''Red'']) 1) ! 1) =
     Some \<lparr>checked = False, disabled = True\<rparr> \<and>
   data_selected (cards (handleVariantChange
       (plain_content [plain_card ''101'' ''1000'' True, shirt_card ''M'' ''Red'']) 1) ! 1) = Some ''false'' \<and>
   subtotal_amount (handleVariantChange
       (plain_content [plain_card ''101'' ''1000'' True, shirt_card ''M'' ''Red'']) 1) = Some ''10.00'' \<and>
   card_checkbox (cards (handleVariantChange
       (plain_content [plain_card ''101'' ''1000'' True, shirt_card ''S'' ''Red'']) 1) ! 1) =
     Some \<lparr>checked = True, disabled = False\<rparr> \<and>
   data_selected (cards (handleVariantChange
       (plain_content [plain_card ''101'' ''1000'' True, shirt_card ''S'' ''Red'']) 1) ! 1) = Some ''true''"
proof -
  have total: "formatMoney None (foldl add_price 0 [plain_card ''101'' ''1000'' True]) = ''10.00''"
    by code_simp
  show ?thesis
    using availability_toggle [of 1 "plain_content [plain_card ''101'' ''1000'' True, shirt_card ''M'' ''Red'']"
        shirt_variants "shirt 303 ''M'' (Str ''Red'') 1500 False" "\<lparr>checked = True, disabled = False\<rparr>" "''none''"]
      availability_toggle [of 1 "plain_content [plain_card ''101'' ''1000'' True, shirt_card ''S'' ''Red'']"
        shirt_variants "shirt 301 ''S'' (Str ''Red'') 1000 True" "\<lparr>checked = True, disabled = False\<rparr>" "''none''"]
      total
    by (simp add: plain_content_def shirt_card_def shirt_variants_def shirt_def selectedOptions_def
        option_at_def variant_matches_def plain_card_def selected_attr_def)
qed

section \<open>Properties of the subtotal\<close>

lemma of_char_digit_char: "d < 10 \<Longrightarrow> (of_char (digit_char d) :: nat) = 48 + d"
  by (simp add: digit_char_def)

lemma is_digit_digit_char: "d < 10 \<Longrightarrow> is_digit (digit_char d)"
  by (simp add: is_digit_def of_char_digit_char)

lemma digit_val_digit_char: "d < 10 \<Longrightarrow> digit_val (digit_char d) = d"
  by (simp add: digit_val_def of_char_digit_char)

lemma digit_not_space: "is_digit c \<Longrightarrow> \<not> is_space c"
  by (auto simp: is_digit_def is_space_def)

lemma digit_not_sign: "is_digit c \<Longrightarrow> c \<noteq> CHR ''-'' \<and> c \<noteq> CHR ''+''"
  by (auto simp: is_digit_def)

lemma show_nat_digits: "\<forall>c \<in> set (show_nat n). is_digit c"
proof (induction n rule: show_nat.induct)
  case (1 n)
  show ?case
  proof (cases "n < 10")
    case True
    then show ?thesis by (simp add: show_nat_small is_digit_digit_char)
  next
    case False
    with 1 show ?thesis by (simp add: show_nat_step is_digit_digit_char)
  qed
qed

lemma digits_value_snoc: "digits_value (ds @ [c]) = digits_value ds * 10 + digit_val c"
  by (simp add: digits_value_def)

lemma digits_value_show_nat: "digits_value (show_nat n) = n"
proof (induction n rule: show_nat.induct)
  case (1 n)
  show ?case
  proof (cases "n < 10")
    case True
    then show ?thesis by (simp add: show_nat_small digits_value_def digit_val_digit_char)
  next
    case False
    with 1 have "digits_value (show_nat (n div 10)) = n div 10" by simp
    with False show ?thesis
      by (simp add: show_nat_step digits_value_snoc digit_val_digit_char)
  qed
qed

lemma takeWhile_all: "\<forall>x \<in> set xs. P x \<Longrightarrow> takeWhile P xs = xs"
  by (induction xs) simp_all

lemma parseInt_digits:
  assumes "\<forall>c \<in> set ds. is_digit c" and "ds \<noteq> []"
  shows "parseInt ds = Some (int (digits_value ds))"
    and "parseInt (CHR ''-'' # ds) = Some (- int (digits_value ds))"
proof -
  from assms obtain c r where ds: "ds = c # r" by (cases ds) auto
  with assms have c: "is_digit c" by simp
  have tw: "takeWhile is_digit ds = ds" using assms(1) by (rule takeWhile_all)
  from c have "\<not> is_space c" "c \<noteq> CHR ''-''" "c \<noteq> CHR ''+''"
    using digit_not_space digit_not_sign by blast+
  with tw ds show "parseInt ds = Some (int (digits_value ds))"
    by (simp add: parseInt_def)
  have "\<not> is_space CHR ''-''" by (simp add: is_space_def)
  with tw ds show "parseInt (CHR ''-'' # ds) = Some (- int (digits_value ds))"
    by (simp add: parseInt_def)
qed

lemma parseInt_show_int: "parseInt (show_int n) = Some n"
proof (cases "n < 0")
  case True
  then show ?thesis
    using parseInt_digits(2) [OF show_nat_digits show_nat_nonempty, of "nat (- n)"]
    by (simp add: show_int_def digits_value_show_nat)
next
  case False
  then show ?thesis
    using parseInt_digits(1) [OF show_nat_digits show_nat_nonempty, of "nat n"]
    by (simp add: show_int_def digits_value_show_nat)
qed

lemma show_int_nonempty: "show_int n \<noteq> []"
  by (simp add: show_int_def show_nat_nonempty)

lemma add_price_integer: "data_price c = Some (show_int n) \<Longrightarrow> add_price a c = a + n"
  by (simp add: add_price_def show_int_nonempty parseInt_show_int)

lemma foldl_add_price_sum:
  "\<forall>c \<in> set cs. data_price c = Some (show_int (p c)) \<Longrightarrow>
     foldl add_price a cs = a + (\<Sum>c\<leftarrow>cs. p c)"
  by (induction cs arbitrary: a) (simp_all add: add_price_integer)

lemma subtotal_after_update:
  assumes "\<forall>c \<in> set (cards s). data_selected c = Some ''true'' \<longrightarrow> data_price c = Some (show_int (p c))"
  shows "subtotal_amount (updateSubtotal s) =
           map_option (\<lambda>_. formatMoney (moneyFormat s)
               (\<Sum>c\<leftarrow>filter (\<lambda>c. data_selected c = Some ''true'') (cards s). p c))
             (subtotal_amount s)"
proof -
  have "\<forall>c \<in> set (selected_cards s). data_price c = Some (show_int (p c))"
    using assms by (simp add: selected_cards_def)
  then have "foldl add_price 0 (selected_cards s) = (\<Sum>c\<leftarrow>selected_cards s. p c)"
    using foldl_add_price_sum [of "selected_cards s" p 0] by simp
  then show ?thesis
    by (simp add: updateSubtotal_def selected_cards_def split: option.splits)
qed

lemma subtotal_shown_update:
  assumes "\<forall>c \<in> set (cards (updateSubtotal s)). data_selected c = Some ''true'' \<longrightarrow>
             data_price c = Some (show_int (p c))"
  shows "subtotal_shown p (updateSubtotal s)"
proof -
  from assms have ints: "\<forall>c \<in> set (cards s). data_selected c = Some ''true'' \<longrightarrow>
      data_price c = Some (show_int (p c))"
    by (simp add: cards_updateSubtotal)
  have mf: "moneyFormat (updateSubtotal s) = moneyFormat s"
    by (simp add: updateSubtotal_def split: option.splits)
  show ?thesis
    using subtotal_after_update [OF ints]
    by (auto simp: subtotal_shown_def cards_updateSubtotal mf split: option.splits)
qed

lemma handler_shapes:
  "handleCardClick s i t = s \<or> (\<exists>u. handleCardClick s i t = updateSubtotal u)"
  "handleCheckboxChange s i = s \<or> (\<exists>u. handleCheckboxChange s i = updateSubtotal u)"
  "handleVariantChange s i = s \<or> (\<exists>u. handleVariantChange s i = updateSubtotal u)"
  by (auto simp: handleCardClick_def handleCheckboxChange_def handleVariantChange_def Let_def
      split: option.splits)

text \<open>
  Claim C4. Where every card whose selection flag is true carries a whole number \<open>p\<close> in
  its price attribute, the subtotal that \<open>#updateSubtotal\<close> renders is the formatted sum of
  \<open>p\<close> over exactly those cards; and a card click, a checkbox change and a variant change
  each leave the rendered subtotal equal to that sum over the cards as they are afterwards.
  Two selected cards priced 1000 and 1500 give 2500, rendered 25.00.
\<close>

theorem subtotal_is_sum_of_selected:
  assumes "\<forall>c \<in> set (cards s'). data_selected c = Some ''true'' \<longrightarrow> data_price c = Some (show_int (p c))"
    and "s' = updateSubtotal s \<or>
         (subtotal_shown p s \<and>
          (s' = handleCardClick s i t \<or> s' = handleCheckboxChange s i \<or> s' = handleVariantChange s i))"
  shows "case subtotal_amount s' of
           None \<Rightarrow> True
         | Some text \<Rightarrow>
             text = formatMoney (moneyFormat s')
                      (\<Sum>c\<leftarrow>filter (\<lambda>c. data_selected c = Some ''true'') (cards s'). p c)"
proof -
  from assms(2) handler_shapes(1) [of s i t] handler_shapes(2) [of s i] handler_shapes(3) [of s i]
  have "(s' = s \<and> subtotal_shown p s) \<or> (\<exists>u. s' = updateSubtotal u)"
    by metis
  then have "subtotal_shown p s'"
  proof
    assume "s' = s \<and> subtotal_shown p s"
    then show ?thesis by simp
  next
    assume "\<exists>u. s' = updateSubtotal u"
    then obtain u where u: "s' = updateSubtotal u" ..
    with assms(1) show ?thesis
      by (simp add: subtotal_shown_update)
  qed
  then show ?thesis by (simp add: subtotal_shown_def)
qed

theorem subtotal_is_sum_of_selected_witness:
  "subtotal_amount (updateSubtotal
      (plain_content [plain_card ''101'' ''1000'' True, plain_card ''102'' ''1500'' True,
                      plain_card ''103'' ''700'' False])) = Some ''25.00'' \<and>
   subtotal_amount (handleCardClick (updateSubtotal
      (plain_content [plain_card ''101'' ''1000'' True, plain_card ''102'' ''1500'' True,
                      plain_card ''103'' ''700'' False])) 2 On_other) = Some ''32.00''"
proof -
  define p :: "card \<Rightarrow> int" where "p = (\<lambda>c. if data_price c = Some ''1000'' then 1000
                            else if data_price c = Some ''1500'' then 1500 else 700)"
  define s0 where "s0 = plain_content [plain_card ''101'' ''1000'' True, plain_card ''102'' ''1500'' True,
      plain_card ''103'' ''700'' False]"
  have digits: "show_int 1000 = ''1000''" "show_int 1500 = ''1500''" "show_int 700 = ''700''"
    by code_simp+
  have money: "formatMoney None 2500 = ''25.00''" "formatMoney None 3200 = ''32.00''"
    by code_simp+
  have c0: "cards (updateSubtotal s0) = cards s0"
    by (rule cards_updateSubtotal)
  have ints0: "\<forall>c \<in> set (cards (updateSubtotal s0)).
      data_selected c = Some ''true'' \<longrightarrow> data_price c = Some (show_int (p c))"
    unfolding c0 by (simp add: s0_def p_def plain_content_def plain_card_def digits)
  have first: "subtotal_amount (updateSubtotal s0) = Some ''25.00''"
    using subtotal_is_sum_of_selected [OF ints0, of s0 0 On_other]
    by (simp add: cards_updateSubtotal updateSubtotal_def s0_def p_def plain_content_def plain_card_def
        selected_attr_def money split: option.splits)
  define s1 where "s1 = handleCardClick (updateSubtotal s0) 2 On_other"
  have c1: "cards s1 = [plain_card ''101'' ''1000'' True, plain_card ''102'' ''1500'' True,
      plain_card ''103'' ''700'' True]"
    by (simp add: s1_def handleCardClick_def cards_updateSubtotal s0_def plain_content_def plain_card_def
        selected_attr_def Let_def)
  have ints1: "\<forall>c \<in> set (cards s1).
      data_selected c = Some ''true'' \<longrightarrow> data_price c = Some (show_int (p c))"
    unfolding c1 by (simp add: p_def plain_card_def digits)
  have shown0: "subtotal_shown p (updateSubtotal s0)"
    using first
    by (simp add: subtotal_shown_def cards_updateSubtotal updateSubtotal_def s0_def p_def
        plain_content_def plain_card_def selected_attr_def money)
  have sub1: "subtotal_amount s1 \<noteq> None"
    by (simp add: s1_def handleCardClick_def cards_updateSubtotal updateSubtotal_def s0_def
        plain_content_def plain_card_def selected_attr_def Let_def)
  have mf1: "moneyFormat s1 = None"
    by (simp add: s1_def handleCardClick_def cards_updateSubtotal updateSubtotal_def s0_def
        plain_content_def plain_card_def selected_attr_def Let_def)
  have second: "subtotal_amount s1 = Some ''32.00''"
    using subtotal_is_sum_of_selected [OF ints1, of "updateSubtotal s0" 2 On_other] shown0 sub1
    by (auto simp: s1_def [symmetric] c1 mf1 p_def plain_card_def selected_attr_def money
        split: option.splits)
  from first second show ?thesis
    by (simp add: s0_def s1_def)
qed

section \<open>Properties of the selection toggle\<close>

lemma checkbox_toggled_as_click:
  "i < length (cards s) \<Longrightarrow> listening (cards s ! i) \<Longrightarrow>
     checkbox_toggled s i = handleCardClick s i On_other"
  by (simp add: checkbox_toggled_def handleCardClick_def handleCheckboxChange_def Let_def
      split: option.splits)

lemma checkbox_toggled_unheard:
  assumes "i < length (cards s)" and "card_checkbox (cards s ! i) = Some cb" and "\<not> disabled cb"
    and "\<not> listening (cards s ! i)"
  shows "checkbox_toggled (checkbox_toggled s i) i = s"
proof -
  define c where "c = cards s ! i"
  define s1 where "s1 = s\<lparr>cards := (cards s)[i := c\<lparr>card_checkbox := Some (cb\<lparr>checked := \<not> checked cb\<rparr>)\<rparr>]\<rparr>"
  have first: "checkbox_toggled s i = s1"
    using assms by (simp add: checkbox_toggled_def Let_def s1_def c_def)
  have at1: "cards s1 ! i = c\<lparr>card_checkbox := Some (cb\<lparr>checked := \<not> checked cb\<rparr>)\<rparr>"
    and len1: "i < length (cards s1)"
    using assms(1) by (simp_all add: s1_def)
  have "c\<lparr>card_checkbox := Some cb\<rparr> = c"
    using assms(2) by (simp add: c_def)
  then have "checkbox_toggled s1 i = s\<lparr>cards := (cards s)[i := c]\<rparr>"
    using assms(3,4) len1 by (simp add: checkbox_toggled_def Let_def at1) (simp add: s1_def c_def)
  then have "checkbox_toggled s1 i = s" by (simp add: c_def)
  with first show ?thesis by simp
qed

lemma add_price_same_price: "data_price c' = data_price c \<Longrightarrow> add_price a c' = add_price a c"
  by (simp add: add_price_def)

lemma replace_same_total:
  assumes "i < length cs"
    and "(data_selected c' = Some ''true'') = (data_selected (cs ! i) = Some ''true'')"
    and "data_price c' = data_price (cs ! i)"
  shows "foldl add_price a (filter (\<lambda>c. data_selected c = Some ''true'') (cs[i := c'])) =
         foldl add_price a (filter (\<lambda>c. data_selected c = Some ''true'') cs)"
  using assms
proof (induction cs arbitrary: i a)
  case Nil
  then show ?case by simp
next
  case (Cons x xs)
  show ?case
  proof (cases i)
    case 0
    with Cons.prems show ?thesis
      by (simp add: add_price_same_price [of c' x])
  next
    case (Suc j)
    with Cons.prems Cons.IH [of j] show ?thesis by simp
  qed
qed

lemma click_enabled:
  assumes "i < length (cards s)" and "card_checkbox (cards s ! i) = Some cb" and "\<not> disabled cb"
  shows "handleCardClick s i On_other =
           updateSubtotal (s\<lparr>cards := (cards s)[i := (cards s ! i)
              \<lparr>card_checkbox := Some (cb\<lparr>checked := \<not> checked cb\<rparr>),
               data_selected := Some (selected_attr (\<not> checked cb))\<rparr>]\<rparr>)"
  using assms by (simp add: handleCardClick_def Let_def)

lemma updateSubtotal_same_total:
  assumes "foldl add_price 0 (filter (\<lambda>c. data_selected c = Some ''true'') cs) =
           foldl add_price 0 (filter (\<lambda>c. data_selected c = Some ''true'') (cards s))"
  shows "subtotal_amount (updateSubtotal (s\<lparr>cards := cs\<rparr>)) = subtotal_amount (updateSubtotal s)"
  using assms by (simp add: updateSubtotal_def selected_cards_def split: option.splits)

text \<open>
  Claim C9, as the specification words it, fails: in a component as first rendered, a
  card whose enabled checkbox is unchecked while its selection flag is true ends, after
  two clicks, with the checkbox unchecked again but the flag false and the subtotal
  changed from 10.00 to 0.00.
\<close>

theorem double_toggle_counterexample:
  "card_checkbox (cards mismatched_content ! 0) = Some \<lparr>checked = False, disabled = False\<rparr> \<and>
   data_selected (cards mismatched_content ! 0) = Some ''true'' \<and>
   subtotal_amount mismatched_content = Some ''10.00'' \<and>
   card_checkbox (cards (handleCardClick (handleCardClick mismatched_content 0 On_other) 0 On_other) ! 0) =
     Some \<lparr>checked = False, disabled = False\<rparr> \<and>
   data_selected (cards (handleCardClick (handleCardClick mismatched_content 0 On_other) 0 On_other) ! 0) =
     Some ''false'' \<and>
   subtotal_amount (handleCardClick (handleCardClick mismatched_content 0 On_other) 0 On_other) =
     Some ''0.00''"
  by code_simp

text \<open>
  Claim C9, amended. For a card with an enabled checkbox whose selection flag agrees with
  the checkbox (the flag is true exactly when the box is checked), in a component whose
  subtotal is current, two runs of the click handler in a row restore the checkbox, the
  truth of the selection flag and the subtotal; when the flag attribute was already the
  text the handlers write, the whole component is restored. Two changes of the checkbox
  itself do the same as the two clicks where the component listens to the card, and
  where it does not they flip the checkbox twice and leave the component as it was.
\<close>

theorem double_toggle_restores:
  assumes "i < length (cards s)" and "card_checkbox (cards s ! i) = Some cb" and "\<not> disabled cb"
    and "(data_selected (cards s ! i) = Some ''true'') = checked cb"
    and "updateSubtotal s = s"
  shows "card_checkbox (cards (handleCardClick (handleCardClick s i On_other) i On_other) ! i) = Some cb \<and>
         data_selected (cards (handleCardClick (handleCardClick s i On_other) i On_other) ! i) =
           Some (selected_attr (checked cb)) \<and>
         (data_selected (cards (handleCardClick (handleCardClick s i On_other) i On_other) ! i) = Some ''true'') =
           (data_selected (cards s ! i) = Some ''true'') \<and>
         subtotal_amount (handleCardClick (handleCardClick s i On_other) i On_other) = subtotal_amount s \<and>
         (if listening (cards s ! i)
          then checkbox_toggled (checkbox_toggled s i) i =
                 handleCardClick (handleCardClick s i On_other) i On_other
          else checkbox_toggled (checkbox_toggled s i) i = s) \<and>
         (data_selected (cards s ! i) = Some (selected_attr (checked cb)) \<longrightarrow>
            handleCardClick (handleCardClick s i On_other) i On_other = s)"
proof -
  define c where "c = cards s ! i"
  define c1 where "c1 = c\<lparr>card_checkbox := Some (cb\<lparr>checked := \<not> checked cb\<rparr>),
                          data_selected := Some (selected_attr (\<not> checked cb))\<rparr>"
  define c2 where "c2 = c\<lparr>card_checkbox := Some cb, data_selected := Some (selected_attr (checked cb))\<rparr>"
  define s1 where "s1 = handleCardClick s i On_other"
  define s2 where "s2 = handleCardClick s1 i On_other"
  have s1: "s1 = updateSubtotal (s\<lparr>cards := (cards s)[i := c1]\<rparr>)"
    unfolding s1_def c1_def c_def using assms(1-3) by (rule click_enabled)
  have cards1: "cards s1 = (cards s)[i := c1]"
    by (simp add: s1 cards_updateSubtotal)
  have len1: "i < length (cards s1)" using assms(1) by (simp add: cards1)
  have at1: "cards s1 ! i = c1" using assms(1) by (simp add: cards1)
  have cb1: "card_checkbox (cards s1 ! i) = Some (cb\<lparr>checked := \<not> checked cb\<rparr>)"
    by (simp add: at1 c1_def)
  have en1: "\<not> disabled (cb\<lparr>checked := \<not> checked cb\<rparr>)" using assms(3) by simp
  have "s2 = updateSubtotal (s1\<lparr>cards := (cards s1)[i := (cards s1 ! i)
              \<lparr>card_checkbox := Some (cb\<lparr>checked := \<not> checked cb\<rparr>\<lparr>checked := \<not> checked (cb\<lparr>checked := \<not> checked cb\<rparr>)\<rparr>),
               data_selected := Some (selected_attr (\<not> checked (cb\<lparr>checked := \<not> checked cb\<rparr>)))\<rparr>]\<rparr>)"
    unfolding s2_def using len1 cb1 en1 by (rule click_enabled)
  then have "s2 = updateSubtotal (s1\<lparr>cards := (cards s)[i := c2]\<rparr>)"
    using assms(1) by (simp add: cards1 c1_def c2_def)
  then have s2: "s2 = updateSubtotal (s\<lparr>cards := (cards s)[i := c2]\<rparr>)"
    by (simp add: s1 updateSubtotal_def selected_cards_def split: option.splits)
  have at2: "cards s2 ! i = c2" using assms(1) by (simp add: s2 cards_updateSubtotal)
  have flag2: "(data_selected c2 = Some ''true'') = (data_selected (cards s ! i) = Some ''true'')"
    using assms(4) by (simp add: c2_def selected_attr_def)
  have price2: "data_price c2 = data_price (cards s ! i)"
    by (simp add: c2_def c_def)
  have "subtotal_amount s2 = subtotal_amount (updateSubtotal s)"
    unfolding s2
    by (rule updateSubtotal_same_total) (rule replace_same_total [OF assms(1) flag2 price2])
  with assms(5) have sub: "subtotal_amount s2 = subtotal_amount s" by simp
  have same: "data_selected (cards s ! i) = Some (selected_attr (checked cb)) \<longrightarrow> s2 = s"
  proof
    assume "data_selected (cards s ! i) = Some (selected_attr (checked cb))"
    with assms(2) have "c2 = c" by (simp add: c2_def c_def)
    then have "(cards s)[i := c2] = cards s" by (simp add: c_def)
    with s2 assms(5) show "s2 = s" by simp
  qed
  have heard: "checkbox_toggled (checkbox_toggled s i) i = s2" if on: "listening (cards s ! i)"
  proof -
    have "checkbox_toggled s i = s1"
      unfolding s1_def using assms(1) on by (rule checkbox_toggled_as_click)
    moreover have "listening (cards s1 ! i)"
      using on by (simp add: at1 c1_def c_def)
    then have "checkbox_toggled s1 i = s2"
      unfolding s2_def using len1 by (intro checkbox_toggled_as_click)
    ultimately show ?thesis by simp
  qed
  have unheard: "checkbox_toggled (checkbox_toggled s i) i = s" if "\<not> listening (cards s ! i)"
    using assms(1-3) that by (rule checkbox_toggled_unheard)
  have tog: "if listening (cards s ! i)
      then checkbox_toggled (checkbox_toggled s i) i = s2
      else checkbox_toggled (checkbox_toggled s i) i = s"
    using heard unheard by simp
  from at2 flag2 sub same tog show ?thesis
    unfolding s2_def s1_def by (simp add: c2_def)
qed

theorem double_toggle_restores_witness:
  "handleCardClick (handleCardClick
      (updateSubtotal (plain_content [plain_card ''101'' ''1000'' True, plain_card ''102'' ''1500'' False]))
      1 On_other) 1 On_other =
     updateSubtotal (plain_content [plain_card ''101'' ''1000'' True, plain_card ''102'' ''1500'' False])"
  using double_toggle_restores [of 1
      "updateSubtotal (plain_content [plain_card ''101'' ''1000'' True, plain_card ''102'' ''1500'' False])"
      "\<lparr>checked = False, disabled = False\<rparr>"]
  by (simp add: cards_updateSubtotal updateSubtotal_idem plain_content_def plain_card_def selected_attr_def)

end
